theory Spec2Isabelle
  imports Main "HOL-Library.Word" "HOL-Library.FSet" "HOL-Library.Finite_Map"
begin

section \<open>Lane configuration (mempool/lanes_info.go)\<close>

text \<open>
  \<^verbatim>\<open>type LaneData struct { lanes map[string]uint32; defaultLane string }\<close>.
  A Go map is a finite partial function, so \<open>lanes\<close> is a finite map from names to
  32-bit priorities; \<open>len\<close> of the map is the cardinality of its domain.
\<close>

record LaneData =
  lanes :: "(string, 32 word) fmap"
  defaultLane :: string

text \<open>
  The four error structs returned by \<open>validate\<close>; each carries the offending
  configuration in its \<open>Info\<close> field.
\<close>

datatype lane_error =
    ErrEmptyLanesDefaultLaneSet LaneData
  | ErrBadDefaultLaneNonEmptyLaneList LaneData
  | ErrDefaultLaneNotInList LaneData
  | ErrRepeatedLanes LaneData

text \<open>
  \<open>validate\<close>, branch by branch. The result \<open>None\<close> is Go's \<open>nil\<close> error.
  The declaration of \<open>types.LaneID\<close> is not part of the sources at hand, so the conversion
  \<open>types.LaneID(laneID)\<close> of a lane name is the parameter \<open>toLaneID\<close>. The loop that
  fills \<open>lanesSet\<close> inserts the converted name of every key of \<open>lanes\<close>, which
  makes \<open>lanesSet\<close> the image of the key set under the conversion.
\<close>

definition validate :: "(string \<Rightarrow> 'lid) \<Rightarrow> LaneData \<Rightarrow> lane_error option" where
  "validate toLaneID info =
     (if fcard (fmdom (lanes info)) = 0 \<and> defaultLane info = [] then None
      else if fcard (fmdom (lanes info)) = 0 \<and> defaultLane info \<noteq> []
        then Some (ErrEmptyLanesDefaultLaneSet info)
      else if defaultLane info = [] \<and> fcard (fmdom (lanes info)) \<noteq> 0
        then Some (ErrBadDefaultLaneNonEmptyLaneList info)
      else if fmlookup (lanes info) (defaultLane info) = None
        then Some (ErrDefaultLaneNotInList info)
      else (let lanesSet = toLaneID |`| fmdom (lanes info)
            in if fcard (fmdom (lanes info)) \<noteq> fcard lanesSet
               then Some (ErrRepeatedLanes info)
               else None))"

text \<open>
  \<open>BuildLanesInfo\<close> returns the pair (pointer, error) of the Go function: \<open>None\<close> in
  the first component is the \<open>nil\<close> pointer, \<open>None\<close> in the second the \<open>nil\<close> error.
\<close>

definition BuildLanesInfo ::
  "(string \<Rightarrow> 'lid) \<Rightarrow> (string, 32 word) fmap \<Rightarrow> string \<Rightarrow> LaneData option \<times> lane_error option" where
  "BuildLanesInfo toLaneID laneList defLane =
     (let info = \<lparr>lanes = laneList, defaultLane = defLane\<rparr>
      in case validate toLaneID info of
           Some err \<Rightarrow> (None, Some err)
         | None \<Rightarrow> (Some info, None))"

text \<open>
  The invariants of a lane configuration as the specification words them, and the
  validator the specification describes: the four invariants checked in their order,
  the first violated one deciding the error kind. These follow the specification's
  text, not the code, and are compared with \<open>validate\<close> below.
\<close>

definition lane_inv1 :: "LaneData \<Rightarrow> bool" where
  "lane_inv1 info = (fmdom (lanes info) = {||} \<longrightarrow> defaultLane info = [])"

definition lane_inv2 :: "LaneData \<Rightarrow> bool" where
  "lane_inv2 info = (defaultLane info \<noteq> [] \<longrightarrow> fmdom (lanes info) \<noteq> {||})"

definition lane_inv3 :: "LaneData \<Rightarrow> bool" where
  "lane_inv3 info = (fmdom (lanes info) \<noteq> {||} \<longrightarrow>
     defaultLane info \<noteq> [] \<and> defaultLane info |\<in>| fmdom (lanes info))"

definition lane_inv4 :: "(string \<Rightarrow> 'lid) \<Rightarrow> LaneData \<Rightarrow> bool" where
  "lane_inv4 toLaneID info =
     (\<forall>a |\<in>| fmdom (lanes info). \<forall>b |\<in>| fmdom (lanes info).
        toLaneID a = toLaneID b \<longrightarrow> a = b)"

definition validate_by_invariants :: "(string \<Rightarrow> 'lid) \<Rightarrow> LaneData \<Rightarrow> lane_error option" where
  "validate_by_invariants toLaneID info =
     (if \<not> lane_inv1 info then Some (ErrEmptyLanesDefaultLaneSet info)
      else if \<not> lane_inv2 info then Some (ErrBadDefaultLaneNonEmptyLaneList info)
      else if \<not> lane_inv3 info then Some (ErrDefaultLaneNotInList info)
      else if \<not> lane_inv4 toLaneID info then Some (ErrRepeatedLanes info)
      else None)"

section \<open>The reactor's sender map\<close>

text \<open>
  \<^verbatim>\<open>txSenders map[types.TxKey]map[uint16]bool\<close>. The key type \<open>types.TxKey\<close> is declared
  outside the sources at hand and stays a type parameter. The reactor record keeps the
  two fields the functions below touch: the mempool (an abstract state, only reached through
  \<open>CheckTx\<close>) and the sender map. The mutex guards each operation as a whole, so each
  operation is one atomic state transformer.
\<close>

record ('k, 'mp) Reactor =
  mempool :: 'mp
  txSenders :: "'k \<rightharpoonup> (16 word \<rightharpoonup> bool)"

text \<open>Reading a missing key of a Go \<open>map[uint16]bool\<close> yields \<open>false\<close>.\<close>

definition isSender :: "('k, 'mp) Reactor \<Rightarrow> 'k \<Rightarrow> 16 word \<Rightarrow> bool" where
  "isSender memR txKey peerID =
     (case txSenders memR txKey of
        None \<Rightarrow> False
      | Some sendersSet \<Rightarrow> (case sendersSet peerID of None \<Rightarrow> False | Some b \<Rightarrow> b))"

definition addSender :: "('k, 'mp) Reactor \<Rightarrow> 'k \<Rightarrow> 16 word \<Rightarrow> ('k, 'mp) Reactor \<times> bool" where
  "addSender memR txKey senderID =
     (case txSenders memR txKey of
        Some sendersSet \<Rightarrow>
          (memR\<lparr>txSenders := (txSenders memR)(txKey \<mapsto> sendersSet(senderID \<mapsto> True))\<rparr>, False)
      | None \<Rightarrow>
          (memR\<lparr>txSenders := (txSenders memR)(txKey \<mapsto> [senderID \<mapsto> True])\<rparr>, True))"

definition removeSenders :: "('k, 'mp) Reactor \<Rightarrow> 'k \<Rightarrow> ('k, 'mp) Reactor" where
  "removeSenders memR txKey = memR\<lparr>txSenders := (txSenders memR)(txKey := None)\<rparr>"

text \<open>
  \<open>updateSendersRoutine\<close> loops over a \<open>select\<close> on two channels. The list holds, in
  order, what the \<open>select\<close> receives: a key from \<open>TxsRemoved()\<close> or the close of
  \<open>Quit()\<close>. The routine returns at \<open>Quit\<close>; when the list is used up it is blocked in
  the \<open>select\<close>, and the state reached so far is the result.
\<close>

datatype 'k senders_event = TxsRemoved 'k | Quit

fun updateSendersRoutine :: "'k senders_event list \<Rightarrow> ('k, 'mp) Reactor \<Rightarrow> ('k, 'mp) Reactor" where
  "updateSendersRoutine [] memR = memR"
| "updateSendersRoutine (TxsRemoved txKey # evs) memR =
     updateSendersRoutine evs (removeSenders memR txKey)"
| "updateSendersRoutine (Quit # evs) memR = memR"

section \<open>Inbound messages: Receive\<close>

text \<open>
  A transaction is a byte string (\<^verbatim>\<open>types.Tx\<close> is \<^verbatim>\<open>[]byte\<close>). The envelope's message is
  either a \<^verbatim>\<open>*protomem.Txs\<close> with its list of payloads or a message of any other type.
\<close>

type_synonym Tx = "8 word list"

datatype message = Txs "Tx list" | OtherMessage

record 'peer Envelope =
  Src :: 'peer
  ChannelID :: "8 word"
  Message :: message

text \<open>
  What \<open>CheckTx\<close> may return as its error: \<open>ErrTxInCache\<close> (the case
  \<^verbatim>\<open>errors.Is(err, ErrTxInCache)\<close> singles out) or any other error.
\<close>

datatype mempool_error = ErrTxInCache | ErrCheckTxOther string

text \<open>
  Everything \<open>Receive\<close> does besides changing the reactor is recorded, in program
  order, as a list of effects: the logger calls by level, each call of \<open>addSender\<close>, each
  call of the mempool's \<open>CheckTx\<close> with the error it returned, and the call of
  \<open>Switch.StopPeerForError\<close>.
\<close>

datatype ('k, 'peer) effect =
    LoggerDebug string
  | LoggerError string
  | LoggerInfo string
  | AddSenderCall 'k "16 word"
  | CheckTxCall Tx "mempool_error option"
  | StopPeerForError 'peer

text \<open>
  The loop over the payloads of a batch. The functions declared outside the sources at
  hand are parameters: \<open>Key\<close> is \<open>tx.Key()\<close>, \<open>GetForPeer\<close> is
  \<open>memR.ids.GetForPeer\<close>, and \<open>checkTx\<close> is the mempool's \<open>CheckTx\<close>, a
  transformer of the mempool state that also returns the error.
\<close>

fun Receive_txs ::
  "(Tx \<Rightarrow> 'k) \<Rightarrow> ('peer \<Rightarrow> 16 word) \<Rightarrow> ('mp \<Rightarrow> Tx \<Rightarrow> 'mp \<times> mempool_error option) \<Rightarrow>
   'peer \<Rightarrow> Tx list \<Rightarrow> ('k, 'mp) Reactor \<Rightarrow> ('k, 'mp) Reactor \<times> ('k, 'peer) effect list" where
  "Receive_txs Key GetForPeer checkTx src [] memR = (memR, [])"
| "Receive_txs Key GetForPeer checkTx src (txBytes # rest) memR =
     (let memR1 = fst (addSender memR (Key txBytes) (GetForPeer src));
          (mp, err) = checkTx (mempool memR1) txBytes;
          memR2 = memR1\<lparr>mempool := mp\<rparr>;
          logged = (case err of
                      Some ErrTxInCache \<Rightarrow> [LoggerDebug ''Tx already exists in cache'']
                    | Some (ErrCheckTxOther msg) \<Rightarrow> [LoggerInfo ''Could not check tx'']
                    | None \<Rightarrow> []);
          (memR3, effs) = Receive_txs Key GetForPeer checkTx src rest memR2
      in (memR3,
          [AddSenderCall (Key txBytes) (GetForPeer src), CheckTxCall txBytes err] @ logged @ effs))"

definition Receive ::
  "(Tx \<Rightarrow> 'k) \<Rightarrow> ('peer \<Rightarrow> 16 word) \<Rightarrow> ('mp \<Rightarrow> Tx \<Rightarrow> 'mp \<times> mempool_error option) \<Rightarrow>
   ('k, 'mp) Reactor \<Rightarrow> 'peer Envelope \<Rightarrow> ('k, 'mp) Reactor \<times> ('k, 'peer) effect list" where
  "Receive Key GetForPeer checkTx memR e =
     (case Message e of
        Txs protoTxs \<Rightarrow>
          if length protoTxs = 0
          then (memR, [LoggerDebug ''Receive'', LoggerError ''received empty txs from peer''])
          else (let (memR', effs) = Receive_txs Key GetForPeer checkTx (Src e) protoTxs memR
                in (memR', LoggerDebug ''Receive'' # effs))
      | OtherMessage \<Rightarrow>
          (memR, [LoggerDebug ''Receive'', LoggerError ''unknown message type'',
                  StopPeerForError (Src e)]))"

text \<open>Projections of an effect list used to state the properties of \<open>Receive\<close>.\<close>

fun submitted :: "('k, 'peer) effect list \<Rightarrow> Tx list" where
  "submitted [] = []"
| "submitted (CheckTxCall t err # effs) = t # submitted effs"
| "submitted (x # effs) = submitted effs"

fun rejections :: "('k, 'peer) effect list \<Rightarrow> nat" where
  "rejections [] = 0"
| "rejections (CheckTxCall t (Some err) # effs) = Suc (rejections effs)"
| "rejections (x # effs) = rejections effs"

fun tx_log_lines :: "('k, 'peer) effect list \<Rightarrow> nat" where
  "tx_log_lines [] = 0"
| "tx_log_lines (LoggerDebug msg # effs) =
     (if msg = ''Tx already exists in cache'' then Suc (tx_log_lines effs) else tx_log_lines effs)"
| "tx_log_lines (LoggerInfo msg # effs) =
     (if msg = ''Could not check tx'' then Suc (tx_log_lines effs) else tx_log_lines effs)"
| "tx_log_lines (x # effs) = tx_log_lines effs"

fun stops :: "('k, 'peer) effect list \<Rightarrow> 'peer list" where
  "stops [] = []"
| "stops (StopPeerForError p # effs) = p # stops effs"
| "stops (x # effs) = stops effs"

text \<open>
  The calls of \<open>addSender\<close> (left, with key and sender) and of \<open>CheckTx\<close> (right,
  with the payload) in the order they are made.
\<close>

fun calls :: "('k, 'peer) effect list \<Rightarrow> ('k \<times> 16 word + Tx) list" where
  "calls [] = []"
| "calls (AddSenderCall k i # effs) = Inl (k, i) # calls effs"
| "calls (CheckTxCall t err # effs) = Inr t # calls effs"
| "calls (x # effs) = calls effs"

section \<open>The per-peer broadcast loop\<close>

text \<open>
  The element under the cursor is a \<^verbatim>\<open>*mempoolTx\<close>; the loop reads its height (an
  \<^verbatim>\<open>int64\<close>) and its transaction. The cursor \<open>next\<close> is \<open>None\<close> for \<open>nil\<close>.
\<close>

record mempoolTx =
  height :: "64 word"
  tx :: Tx

text \<open>
  A \<open>select\<close> of the loop either receives from the channel it waits for, with the
  value the following call returns, or sees \<open>peer.Quit()\<close> or \<open>memR.Quit()\<close>.
\<close>

datatype 'a selected = Ready 'a | PeerQuit | MemRQuit

text \<open>
  What the rest of the node answers during one iteration of the loop: whether reactor
  and peer are running, the outcome of the first \<open>select\<close> with the result of
  \<open>TxsFront()\<close>, the peer's height (\<open>None\<close> when the peer has no state yet), the
  result of \<open>peer.Send\<close>, and the outcome of the last \<open>select\<close> with the result of
  \<open>next.Next()\<close>.
\<close>

record iter_env =
  memR_running :: bool
  peer_running :: bool
  txs_wait :: "mempoolTx option selected"
  peer_height :: "64 word option"
  send_success :: bool
  next_wait :: "mempoolTx option selected"

text \<open>
  How an iteration ends: at a \<open>return\<close>, at one of the four \<open>continue\<close> statements
  (the first without a sleep, the others after \<open>time.Sleep\<close>), or at the end of the body
  after \<open>next = next.Next()\<close>.
\<close>

datatype iter_exit =
    Returned
  | ContinueEmptyFront
  | SleepNoPeerState
  | SleepPeerLagging
  | SleepSendFailed
  | Advanced

record iter_result =
  exit :: iter_exit
  cursor :: "mempoolTx option"
  attempted :: "Tx option"
  delivered :: "Tx option"

definition advance :: "iter_env \<Rightarrow> mempoolTx \<Rightarrow> Tx option \<Rightarrow> iter_result" where
  "advance env e sent =
     (case next_wait env of
        Ready n \<Rightarrow> \<lparr>exit = Advanced, cursor = n, attempted = sent, delivered = sent\<rparr>
      | PeerQuit \<Rightarrow> \<lparr>exit = Returned, cursor = Some e, attempted = sent, delivered = sent\<rparr>
      | MemRQuit \<Rightarrow> \<lparr>exit = Returned, cursor = Some e, attempted = sent, delivered = sent\<rparr>)"

definition gossip :: "(Tx \<Rightarrow> 'k) \<Rightarrow> ('k, 'mp) Reactor \<Rightarrow> 16 word \<Rightarrow> iter_env \<Rightarrow> mempoolTx \<Rightarrow> iter_result" where
  "gossip Key memR peerID env e =
     (case peer_height env of
        None \<Rightarrow> \<lparr>exit = SleepNoPeerState, cursor = Some e, attempted = None, delivered = None\<rparr>
      | Some h \<Rightarrow>
          if sint h < sint (height e - 1)
          then \<lparr>exit = SleepPeerLagging, cursor = Some e, attempted = None, delivered = None\<rparr>
          else if \<not> isSender memR (Key (tx e)) peerID
          then (if \<not> send_success env
                then \<lparr>exit = SleepSendFailed, cursor = Some e,
                      attempted = Some (tx e), delivered = None\<rparr>
                else advance env e (Some (tx e)))
          else advance env e None)"

definition broadcastTxRoutine_iter ::
  "(Tx \<Rightarrow> 'k) \<Rightarrow> ('k, 'mp) Reactor \<Rightarrow> 16 word \<Rightarrow> iter_env \<Rightarrow> mempoolTx option \<Rightarrow> iter_result" where
  "broadcastTxRoutine_iter Key memR peerID env next =
     (if \<not> memR_running env \<or> \<not> peer_running env
      then \<lparr>exit = Returned, cursor = next, attempted = None, delivered = None\<rparr>
      else case next of
        Some e \<Rightarrow> gossip Key memR peerID env e
      | None \<Rightarrow>
          (case txs_wait env of
             Ready None \<Rightarrow>
               \<lparr>exit = ContinueEmptyFront, cursor = None, attempted = None, delivered = None\<rparr>
           | Ready (Some e) \<Rightarrow> gossip Key memR peerID env e
           | PeerQuit \<Rightarrow> \<lparr>exit = Returned, cursor = None, attempted = None, delivered = None\<rparr>
           | MemRQuit \<Rightarrow> \<lparr>exit = Returned, cursor = None, attempted = None, delivered = None\<rparr>))"

text \<open>
  The loop itself: one entry of the list per iteration, holding the reactor as it is
  when the iteration looks the sender map up (other routines change it between
  iterations) and the environment's answers. The loop ends at the first \<open>return\<close>.
\<close>

fun broadcastTxRoutine ::
  "(Tx \<Rightarrow> 'k) \<Rightarrow> 16 word \<Rightarrow> (('k, 'mp) Reactor \<times> iter_env) list \<Rightarrow> mempoolTx option \<Rightarrow>
   iter_result list" where
  "broadcastTxRoutine Key peerID [] next = []"
| "broadcastTxRoutine Key peerID ((memR, env) # rest) next =
     (let r = broadcastTxRoutine_iter Key memR peerID env next
      in r # (if exit r = Returned then [] else broadcastTxRoutine Key peerID rest (cursor r)))"

text \<open>
  What the other routines do to the reactor between two sender map lookups of a
  broadcast loop. The sender map has two writers: \<open>Receive\<close>, through
  \<open>addSender\<close>, and the cleanup routine, which consumes one removal notification at a
  time; the mempool changes under its other callers. \<open>reactor_states\<close> gives, for a
  list with the events that happen before each iteration's lookup, the reactor each
  iteration sees.
\<close>

datatype ('k, 'mp, 'peer) reactor_event =
    Inbound "'peer Envelope"
  | Cleanup 'k
  | MempoolStep 'mp

fun other_routines ::
  "(Tx \<Rightarrow> 'k) \<Rightarrow> ('peer \<Rightarrow> 16 word) \<Rightarrow> ('mp \<Rightarrow> Tx \<Rightarrow> 'mp \<times> mempool_error option) \<Rightarrow>
   ('k, 'mp, 'peer) reactor_event list \<Rightarrow> ('k, 'mp) Reactor \<Rightarrow> ('k, 'mp) Reactor" where
  "other_routines Key GetForPeer checkTx [] memR = memR"
| "other_routines Key GetForPeer checkTx (Inbound e # evs) memR =
     other_routines Key GetForPeer checkTx evs (fst (Receive Key GetForPeer checkTx memR e))"
| "other_routines Key GetForPeer checkTx (Cleanup txKey # evs) memR =
     other_routines Key GetForPeer checkTx evs (updateSendersRoutine [TxsRemoved txKey] memR)"
| "other_routines Key GetForPeer checkTx (MempoolStep mp # evs) memR =
     other_routines Key GetForPeer checkTx evs (memR\<lparr>mempool := mp\<rparr>)"

fun reactor_states ::
  "(Tx \<Rightarrow> 'k) \<Rightarrow> ('peer \<Rightarrow> 16 word) \<Rightarrow> ('mp \<Rightarrow> Tx \<Rightarrow> 'mp \<times> mempool_error option) \<Rightarrow>
   ('k, 'mp, 'peer) reactor_event list list \<Rightarrow> ('k, 'mp) Reactor \<Rightarrow> ('k, 'mp) Reactor list" where
  "reactor_states Key GetForPeer checkTx [] memR = []"
| "reactor_states Key GetForPeer checkTx (evs # rest) memR =
     (let memR' = other_routines Key GetForPeer checkTx evs memR
      in memR' # reactor_states Key GetForPeer checkTx rest memR')"

text \<open>
  Modelled from the spec: the ordered store's iteration primitives (the concurrent
  list and the mempool built on it are outside the sources at hand). \<open>Front()\<close> is the
  oldest element still present, or none; \<open>Next()\<close> of a handle is the following element,
  or none when the handle is the last one or has been removed from the store; a handle's
  wait condition is ready when a successor exists or the handle itself was removed; the
  store's own wait condition is ready when the store is not empty. The store is the list
  of its elements, oldest first.
\<close>

definition TxsFront :: "mempoolTx list \<Rightarrow> mempoolTx option" where
  "TxsFront pool = (case pool of [] \<Rightarrow> None | e # es \<Rightarrow> Some e)"

fun Next :: "mempoolTx list \<Rightarrow> mempoolTx \<Rightarrow> mempoolTx option" where
  "Next [] e = None"
| "Next (x # xs) e = (if x = e then TxsFront xs else Next xs e)"

definition TxsWaitChan_ready :: "mempoolTx list \<Rightarrow> bool" where
  "TxsWaitChan_ready pool = (pool \<noteq> [])"

definition NextWaitChan_ready :: "mempoolTx list \<Rightarrow> mempoolTx \<Rightarrow> bool" where
  "NextWaitChan_ready pool e = (e \<notin> set pool \<or> Next pool e \<noteq> None)"

section \<open>Concrete configurations and runs\<close>

text \<open>One lane named \<open>a\<close> with priority 1 and no default lane.\<close>

definition lanes_without_default :: LaneData where
  "lanes_without_default = \<lparr>lanes = fmupd ''a'' 1 fmempty, defaultLane = []\<rparr>"

text \<open>One lane named \<open>a\<close> with priority 0, which is also the default lane.\<close>

definition lanes_zero_default :: LaneData where
  "lanes_zero_default = \<lparr>lanes = fmupd ''a'' 0 fmempty, defaultLane = ''a''\<rparr>"

text \<open>
  A run of one peer's broadcast loop against a store that first holds two transactions
  and then, after the second one was removed, only the first. The sender map is empty
  throughout: the peer never sent this node anything. The environment's answers come
  from the iteration primitives above. In the first iteration the store holds both
  transactions; before the second iteration's last \<open>select\<close> the second transaction
  is removed; in the third iteration the store holds the first transaction only and the
  peer quits at the end.
\<close>

definition gossip_tx1 :: mempoolTx where
  "gossip_tx1 = \<lparr>height = 1, tx = [1]\<rparr>"

definition gossip_tx2 :: mempoolTx where
  "gossip_tx2 = \<lparr>height = 1, tx = [2]\<rparr>"

definition no_senders :: "(Tx, unit) Reactor" where
  "no_senders = \<lparr>mempool = (), txSenders = Map.empty\<rparr>"

definition restart_run :: "((Tx, unit) Reactor \<times> iter_env) list" where
  "restart_run =
     [(no_senders,
       \<lparr>memR_running = True, peer_running = True,
        txs_wait = Ready (TxsFront [gossip_tx1, gossip_tx2]),
        peer_height = Some 1, send_success = True,
        next_wait = Ready (Next [gossip_tx1, gossip_tx2] gossip_tx1)\<rparr>),
      (no_senders,
       \<lparr>memR_running = True, peer_running = True,
        txs_wait = Ready (TxsFront [gossip_tx1, gossip_tx2]),
        peer_height = Some 1, send_success = True,
        next_wait = Ready (Next [gossip_tx1] gossip_tx2)\<rparr>),
      (no_senders,
       \<lparr>memR_running = True, peer_running = True,
        txs_wait = Ready (TxsFront [gossip_tx1]),
        peer_height = Some 1, send_success = True,
        next_wait = PeerQuit\<rparr>)]"

text \<open>
  An environment in which everything is running, the store's front is the given
  element, the peer reports the given height, the send has the given result, and the
  element has no successor yet when the peer quits.
\<close>

definition env_at :: "mempoolTx \<Rightarrow> 64 word \<Rightarrow> bool \<Rightarrow> iter_env" where
  "env_at e h ok =
     \<lparr>memR_running = True, peer_running = True, txs_wait = Ready (Some e),
      peer_height = Some h, send_success = ok, next_wait = PeerQuit\<rparr>"

text \<open>A reactor whose sender map records peer 1 as a sender of the transaction \<open>[1]\<close>.\<close>

definition peer1_sent_tx1 :: "(Tx, unit) Reactor" where
  "peer1_sent_tx1 = \<lparr>mempool = (), txSenders = [[1] \<mapsto> [1 \<mapsto> True]]\<rparr>"

text \<open>A mempool whose \<open>CheckTx\<close> counts its calls and rejects every second payload.\<close>

definition counting_checkTx :: "nat \<Rightarrow> Tx \<Rightarrow> nat \<times> mempool_error option" where
  "counting_checkTx n t =
     (Suc n, if even n then None
             else if t = [2] then Some ErrTxInCache else Some (ErrCheckTxOther ''rejected''))"

definition batch_from :: "nat \<Rightarrow> Tx list \<Rightarrow> nat Envelope" where
  "batch_from p txs = \<lparr>Src = p, ChannelID = 48, Message = Txs txs\<rparr>"

definition other_from :: "nat \<Rightarrow> nat Envelope" where
  "other_from p = \<lparr>Src = p, ChannelID = 48, Message = OtherMessage\<rparr>"

definition peer_ids :: "nat \<Rightarrow> 16 word" where
  "peer_ids p = of_nat p"

definition fresh_reactor :: "(Tx, nat) Reactor" where
  "fresh_reactor = \<lparr>mempool = 0, txSenders = Map.empty\<rparr>"

text \<open>
  What happens around the three iterations of the run above when peer 1 first sends
  this node the first transaction: the batch arrives before the first lookup, the mempool
  changes before the second, and the cleanup routine consumes the removal of the second
  transaction before the third.
\<close>

definition recorded_run_events :: "(Tx, nat, nat) reactor_event list list" where
  "recorded_run_events = [[Inbound (batch_from 1 [[1]])], [MempoolStep 5], [Cleanup [2]]]"

section \<open>Auxiliary facts\<close>

lemma fcard_fimage_eq_iff:
  "(fcard (f |`| A) = fcard A) = (\<forall>a |\<in>| A. \<forall>b |\<in>| A. f a = f b \<longrightarrow> a = b)"
proof -
  have "inj_on f (fset A) \<longleftrightarrow> card (f ` fset A) = card (fset A)"
    by (rule inj_on_iff_eq_card) simp
  then show ?thesis
    by (auto simp: fcard.rep_eq inj_on_def)
qed

lemma validate_None_iff:
  "validate f info = None \<longleftrightarrow>
     lane_inv1 info \<and> lane_inv2 info \<and> lane_inv3 info \<and> lane_inv4 f info"
  unfolding validate_def lane_inv1_def lane_inv2_def lane_inv3_def lane_inv4_def Let_def
  using fcard_fimage_eq_iff[of f "fmdom (lanes info)"]
  by (auto simp: fmlookup_dom_iff fmdom_notI)

lemma sint_pred_nonneg:
  fixes H :: "64 word"
  assumes "0 \<le> sint H"
  shows "sint (H - 1) = sint H - 1"
proof -
  have "sint H < 2 ^ 63"
    using sint_lt[of H] by simp
  then have "signed_take_bit 63 (sint H - 1) = sint H - 1"
    using assms by (intro signed_take_bit_int_eq_self) auto
  then show ?thesis
    by (simp add: sint_word_ariths)
qed

lemma isSender_mempool_update [simp]:
  "isSender (memR\<lparr>mempool := mp\<rparr>) k p = isSender memR k p"
  by (simp add: isSender_def)

lemma isSender_addSender_same: "isSender (fst (addSender memR k i)) k i"
  by (auto simp: isSender_def addSender_def split: option.splits)

lemma isSender_addSender_mono:
  "isSender memR k p \<Longrightarrow> isSender (fst (addSender memR k' i)) k p"
  by (auto simp: isSender_def addSender_def split: option.splits)

lemma updateSendersRoutine_keeps_None:
  "txSenders memR k = None \<Longrightarrow> txSenders (updateSendersRoutine evs memR) k = None"
  by (induction evs memR rule: updateSendersRoutine.induct) (auto simp: removeSenders_def)

lemma updateSendersRoutine_deletes:
  "TxsRemoved k \<in> set (takeWhile (\<lambda>ev. ev \<noteq> Quit) evs) \<Longrightarrow>
   txSenders (updateSendersRoutine evs memR) k = None"
proof (induction evs memR rule: updateSendersRoutine.induct)
  case (2 txKey evs memR)
  show ?case
  proof (cases "txKey = k")
    case True
    then show ?thesis
      by (simp add: updateSendersRoutine_keeps_None removeSenders_def)
  next
    case False
    with 2 show ?thesis by simp
  qed
qed simp_all

lemma Receive_txs_projections:
  "stops (snd (Receive_txs Key G chk src txs memR)) = [] \<and>
   submitted (snd (Receive_txs Key G chk src txs memR)) = txs \<and>
   tx_log_lines (snd (Receive_txs Key G chk src txs memR)) =
     rejections (snd (Receive_txs Key G chk src txs memR))"
proof (induction txs arbitrary: memR)
  case Nil
  then show ?case by simp
next
  case (Cons t txs)
  show ?case
    using Cons.IH
    by (simp add: Let_def case_prod_beta split: option.splits mempool_error.splits)
qed

lemma Receive_txs_calls:
  "calls (snd (Receive_txs Key G chk src txs memR)) =
     concat (map (\<lambda>t. [Inl (Key t, G src), Inr t]) txs)"
proof (induction txs arbitrary: memR)
  case Nil
  then show ?case by simp
next
  case (Cons t txs)
  show ?case
    using Cons.IH
    by (simp add: Let_def case_prod_beta split: option.splits mempool_error.splits)
qed

lemma Receive_txs_keeps_senders:
  "isSender memR k p \<Longrightarrow> isSender (fst (Receive_txs Key G chk src txs memR)) k p"
proof (induction txs arbitrary: memR)
  case Nil
  then show ?case by simp
next
  case (Cons t txs)
  have "isSender (fst (addSender memR (Key t) (G src))\<lparr>mempool := mp\<rparr>) k p" for mp
    using Cons.prems by (simp add: isSender_addSender_mono)
  then show ?case
    using Cons.IH
    by (simp add: Let_def case_prod_beta)
qed

lemma Receive_txs_records_sender:
  "t \<in> set txs \<Longrightarrow> isSender (fst (Receive_txs Key G chk src txs memR)) (Key t) (G src)"
proof (induction txs arbitrary: memR)
  case Nil
  then show ?case by simp
next
  case (Cons a txs)
  show ?case
  proof (cases "t = a")
    case True
    have "isSender (fst (addSender memR (Key a) (G src))\<lparr>mempool := mp\<rparr>) (Key a) (G src)" for mp
      by (simp add: isSender_addSender_same)
    then show ?thesis
      using True by (simp add: Let_def case_prod_beta Receive_txs_keeps_senders)
  next
    case False
    then have "t \<in> set txs"
      using Cons.prems by simp
    then show ?thesis
      using Cons.IH by (simp add: Let_def case_prod_beta)
  qed
qed

lemma advance_exit: "exit (advance env e s) \<noteq> SleepPeerLagging"
  by (simp add: advance_def split: selected.splits)

lemma advance_attempted: "attempted (advance env e s) = s"
  by (simp add: advance_def split: selected.splits)

lemma gossip_lagging_iff:
  "exit (gossip Key memR peerID env e) = SleepPeerLagging \<longleftrightarrow>
     (\<exists>h. peer_height env = Some h \<and> sint h < sint (height e - 1))"
  by (auto simp: gossip_def advance_exit split: option.splits)

lemma iter_is_gossip:
  "memR_running env \<Longrightarrow> peer_running env \<Longrightarrow>
   cur = Some e \<or> cur = None \<and> txs_wait env = Ready (Some e) \<Longrightarrow>
   broadcastTxRoutine_iter Key memR peerID env cur = gossip Key memR peerID env e"
  by (auto simp: broadcastTxRoutine_iter_def)

lemma gossip_attempted:
  "attempted (gossip Key memR peerID env e) = Some t \<Longrightarrow> \<not> isSender memR (Key t) peerID"
  by (auto simp: gossip_def advance_attempted split: option.splits if_splits)

lemma iter_attempted:
  "attempted (broadcastTxRoutine_iter Key memR peerID env cur) = Some t \<Longrightarrow>
     \<not> isSender memR (Key t) peerID"
  by (auto simp: broadcastTxRoutine_iter_def dest: gossip_attempted
      split: option.splits if_splits selected.splits)

lemma run_attempted:
  "i < length (broadcastTxRoutine Key peerID steps cur) \<Longrightarrow>
   attempted (broadcastTxRoutine Key peerID steps cur ! i) = Some t \<Longrightarrow>
   \<not> isSender (fst (steps ! i)) (Key t) peerID"
proof (induction steps arbitrary: cur i)
  case Nil
  then show ?case by simp
next
  case (Cons s steps)
  obtain memR env where s: "s = (memR, env)"
    by (cases s)
  show ?case
  proof (cases i)
    case 0
    then show ?thesis
      using Cons.prems s by (simp add: Let_def iter_attempted)
  next
    case (Suc j)
    then show ?thesis
      using Cons.prems s
        Cons.IH[of j "cursor (broadcastTxRoutine_iter Key memR peerID env cur)"]
      by (simp add: Let_def split: if_splits)
  qed
qed

section \<open>Lane validation\<close>

text \<open>
  Claim C1, as stated: the validator checks the four invariants of the data model in
  their order, stops at the first violated one and returns that invariant's error kind.
  This fails for one lane \<open>a\<close> and an empty default lane: invariants 1 and 2 hold (they
  say the same thing), invariant 3 is the first violated one, which by the stated order
  gives \<open>ErrDefaultLaneNotInList\<close>, while the code returns
  \<open>ErrBadDefaultLaneNonEmptyLaneList\<close> from its own guard for an empty default name.
\<close>

theorem validate_order_counterexample:
  "lane_inv1 lanes_without_default \<and> lane_inv2 lanes_without_default \<and>
   \<not> lane_inv3 lanes_without_default \<and>
   validate_by_invariants id lanes_without_default =
     Some (ErrDefaultLaneNotInList lanes_without_default) \<and>
   validate id lanes_without_default =
     Some (ErrBadDefaultLaneNonEmptyLaneList lanes_without_default)"
  by (simp add: validate_def validate_by_invariants_def lane_inv1_def lane_inv2_def
      lane_inv3_def lanes_without_default_def)

text \<open>
  Claim C1, amended: for every lane configuration exactly one of the five outcomes
  holds. The configuration is valid exactly when all four invariants hold.
  \<open>ErrEmptyLanesDefaultLaneSet\<close> is returned exactly when invariant 1 is violated,
  which is the same as invariant 2 being violated. Invariant 3 has two error kinds:
  \<open>ErrBadDefaultLaneNonEmptyLaneList\<close> exactly when lanes exist and the default name is
  empty, \<open>ErrDefaultLaneNotInList\<close> exactly when lanes exist and the default name is
  non-empty but not among them. \<open>ErrRepeatedLanes\<close> is returned exactly when
  invariants 1 to 3 hold and invariant 4 is violated.
\<close>

theorem validate_outcomes:
  "(validate f info = None \<longleftrightarrow>
      lane_inv1 info \<and> lane_inv2 info \<and> lane_inv3 info \<and> lane_inv4 f info) \<and>
   (validate f info = Some (ErrEmptyLanesDefaultLaneSet info) \<longleftrightarrow> \<not> lane_inv1 info) \<and>
   (\<not> lane_inv1 info \<longleftrightarrow> \<not> lane_inv2 info) \<and>
   (validate f info = Some (ErrBadDefaultLaneNonEmptyLaneList info) \<longleftrightarrow>
      fmdom (lanes info) \<noteq> {||} \<and> defaultLane info = []) \<and>
   (validate f info = Some (ErrDefaultLaneNotInList info) \<longleftrightarrow>
      fmdom (lanes info) \<noteq> {||} \<and> defaultLane info \<noteq> [] \<and>
      defaultLane info |\<notin>| fmdom (lanes info)) \<and>
   (validate f info = Some (ErrRepeatedLanes info) \<longleftrightarrow>
      lane_inv1 info \<and> lane_inv2 info \<and> lane_inv3 info \<and> \<not> lane_inv4 f info) \<and>
   validate f info \<in> {None, Some (ErrEmptyLanesDefaultLaneSet info),
      Some (ErrBadDefaultLaneNonEmptyLaneList info), Some (ErrDefaultLaneNotInList info),
      Some (ErrRepeatedLanes info)}"
  unfolding validate_def lane_inv1_def lane_inv2_def lane_inv3_def lane_inv4_def Let_def
  using fcard_fimage_eq_iff[of f "fmdom (lanes info)"]
  by (auto simp: fmlookup_dom_iff fmdom_notI)

theorem validate_outcomes_witness:
  "validate (\<lambda>n. n) \<lparr>lanes = fmupd ''a'' 1 (fmupd ''b'' 2 fmempty), defaultLane = ''a''\<rparr> = None \<and>
   lane_inv3 \<lparr>lanes = fmupd ''a'' 1 (fmupd ''b'' 2 fmempty), defaultLane = ''a''\<rparr> \<and>
   lane_inv4 (\<lambda>n. n) \<lparr>lanes = fmupd ''a'' 1 (fmupd ''b'' 2 fmempty), defaultLane = ''a''\<rparr> \<and>
   \<not> lane_inv1 \<lparr>lanes = fmempty, defaultLane = ''a''\<rparr> \<and>
   validate (\<lambda>n. n) \<lparr>lanes = fmempty, defaultLane = ''a''\<rparr> =
     Some (ErrEmptyLanesDefaultLaneSet \<lparr>lanes = fmempty, defaultLane = ''a''\<rparr>) \<and>
   validate (\<lambda>n. n) \<lparr>lanes = fmupd ''a'' 1 fmempty, defaultLane = ''b''\<rparr> =
     Some (ErrDefaultLaneNotInList \<lparr>lanes = fmupd ''a'' 1 fmempty, defaultLane = ''b''\<rparr>) \<and>
   \<not> lane_inv4 (take 1) \<lparr>lanes = fmupd ''ab'' 1 (fmupd ''ac'' 2 fmempty), defaultLane = ''ab''\<rparr> \<and>
   validate (take 1) \<lparr>lanes = fmupd ''ab'' 1 (fmupd ''ac'' 2 fmempty), defaultLane = ''ab''\<rparr> =
     Some (ErrRepeatedLanes
       \<lparr>lanes = fmupd ''ab'' 1 (fmupd ''ac'' 2 fmempty), defaultLane = ''ab''\<rparr>)"
  using
    validate_outcomes[of "\<lambda>n. n"
      "\<lparr>lanes = fmupd ''a'' 1 (fmupd ''b'' 2 fmempty), defaultLane = ''a''\<rparr>"]
    validate_outcomes[of "\<lambda>n. n" "\<lparr>lanes = fmempty, defaultLane = ''a''\<rparr>"]
    validate_outcomes[of "\<lambda>n. n" "\<lparr>lanes = fmupd ''a'' 1 fmempty, defaultLane = ''b''\<rparr>"]
    validate_outcomes[of "take 1"
      "\<lparr>lanes = fmupd ''ab'' 1 (fmupd ''ac'' 2 fmempty), defaultLane = ''ab''\<rparr>"]
  by (simp add: lane_inv1_def lane_inv2_def lane_inv3_def lane_inv4_def)

text \<open>
  Claim C7: when lanes exist, a configuration is accepted only if the default lane's
  numeric value is not 0. The code's comment on the third guard says that lane 0 should
  not be used for the default lane, but the guard tests the default lane's name for the
  empty string and no guard reads a priority: one lane \<open>a\<close> of priority 0 that is also
  the default lane is accepted by \<open>validate\<close> and returned by \<open>BuildLanesInfo\<close>.
\<close>

theorem validate_accepts_default_priority_zero:
  "fmdom (lanes lanes_zero_default) \<noteq> {||} \<and>
   fmlookup (lanes lanes_zero_default) (defaultLane lanes_zero_default) = Some 0 \<and>
   validate id lanes_zero_default = None \<and>
   BuildLanesInfo id (lanes lanes_zero_default) (defaultLane lanes_zero_default) =
     (Some lanes_zero_default, None)"
  by (simp add: validate_def BuildLanesInfo_def lanes_zero_default_def fcard_finsert_if)

text \<open>
  Claim C8: for a valid lane configuration \<open>BuildLanesInfo\<close> returns the configuration
  unchanged (lanes equal to \<open>laneList\<close>, default lane equal to \<open>defLane\<close>) and no
  error; for an invalid one it returns a nil \<open>LaneData\<close> together with the error of
  \<open>validate\<close>. Valid means that \<open>validate\<close> returns no error, which is the case
  exactly when the four invariants hold.
\<close>

theorem BuildLanesInfo_contract:
  "(validate f \<lparr>lanes = laneList, defaultLane = defLane\<rparr> = None \<longrightarrow>
      BuildLanesInfo f laneList defLane =
        (Some \<lparr>lanes = laneList, defaultLane = defLane\<rparr>, None)) \<and>
   (\<forall>err. validate f \<lparr>lanes = laneList, defaultLane = defLane\<rparr> = Some err \<longrightarrow>
      BuildLanesInfo f laneList defLane = (None, Some err)) \<and>
   (validate f \<lparr>lanes = laneList, defaultLane = defLane\<rparr> = None \<longleftrightarrow>
      lane_inv1 \<lparr>lanes = laneList, defaultLane = defLane\<rparr> \<and>
      lane_inv2 \<lparr>lanes = laneList, defaultLane = defLane\<rparr> \<and>
      lane_inv3 \<lparr>lanes = laneList, defaultLane = defLane\<rparr> \<and>
      lane_inv4 f \<lparr>lanes = laneList, defaultLane = defLane\<rparr>)"
proof -
  have "validate f \<lparr>lanes = laneList, defaultLane = defLane\<rparr> = None \<longrightarrow>
      BuildLanesInfo f laneList defLane =
        (Some \<lparr>lanes = laneList, defaultLane = defLane\<rparr>, None)"
    by (simp add: BuildLanesInfo_def Let_def)
  moreover have "\<forall>err. validate f \<lparr>lanes = laneList, defaultLane = defLane\<rparr> = Some err \<longrightarrow>
      BuildLanesInfo f laneList defLane = (None, Some err)"
    by (simp add: BuildLanesInfo_def Let_def)
  ultimately show ?thesis
    using validate_None_iff[of f "\<lparr>lanes = laneList, defaultLane = defLane\<rparr>"] by blast
qed

theorem BuildLanesInfo_contract_witness:
  "validate (\<lambda>n. n) \<lparr>lanes = fmupd ''a'' 1 (fmupd ''b'' 2 fmempty), defaultLane = ''b''\<rparr> = None \<and>
   BuildLanesInfo (\<lambda>n. n) (fmupd ''a'' 1 (fmupd ''b'' 2 fmempty)) ''b'' =
     (Some \<lparr>lanes = fmupd ''a'' 1 (fmupd ''b'' 2 fmempty), defaultLane = ''b''\<rparr>, None) \<and>
   validate (\<lambda>n. n) \<lparr>lanes = fmupd ''a'' 1 fmempty, defaultLane = ''c''\<rparr> =
     Some (ErrDefaultLaneNotInList \<lparr>lanes = fmupd ''a'' 1 fmempty, defaultLane = ''c''\<rparr>) \<and>
   BuildLanesInfo (\<lambda>n. n) (fmupd ''a'' 1 fmempty) ''c'' =
     (None, Some (ErrDefaultLaneNotInList \<lparr>lanes = fmupd ''a'' 1 fmempty, defaultLane = ''c''\<rparr>))"
proof -
  have v1: "validate (\<lambda>n. n)
      \<lparr>lanes = fmupd ''a'' 1 (fmupd ''b'' 2 fmempty), defaultLane = ''b''\<rparr> = None"
    by (simp add: validate_def fcard_finsert_if)
  have v2: "validate (\<lambda>n. n) \<lparr>lanes = fmupd ''a'' 1 fmempty, defaultLane = ''c''\<rparr> =
      Some (ErrDefaultLaneNotInList \<lparr>lanes = fmupd ''a'' 1 fmempty, defaultLane = ''c''\<rparr>)"
    by (simp add: validate_def fcard_finsert_if)
  show ?thesis
    using v1 v2
      BuildLanesInfo_contract[of "\<lambda>n. n" "fmupd ''a'' 1 (fmupd ''b'' 2 fmempty)" "''b''"]
      BuildLanesInfo_contract[of "\<lambda>n. n" "fmupd ''a'' 1 fmempty" "''c''"]
    by simp
qed

section \<open>The sender map\<close>

text \<open>
  Claim C10: \<open>addSender(key, id)\<close> returns true if and only if no entry for the key
  existed before the call; after it \<open>isSender(key, id)\<close> is true and \<open>isSender\<close> for
  other keys is unchanged; \<open>removeSenders(key)\<close> makes \<open>isSender(key, p)\<close> false for
  every peer and is idempotent; \<open>isSender(key, p)\<close> is false whenever the key has no
  entry.
\<close>

theorem sender_map_operations:
  "(snd (addSender memR k i) \<longleftrightarrow> txSenders memR k = None) \<and>
   isSender (fst (addSender memR k i)) k i \<and>
   (\<forall>k' p. k' \<noteq> k \<longrightarrow> isSender (fst (addSender memR k i)) k' p = isSender memR k' p) \<and>
   (\<forall>p. \<not> isSender (removeSenders memR k) k p) \<and>
   removeSenders (removeSenders memR k) k = removeSenders memR k \<and>
   (\<forall>p. txSenders memR k = None \<longrightarrow> \<not> isSender memR k p)"
  by (auto simp: addSender_def isSender_def removeSenders_def split: option.splits)

theorem sender_map_operations_witness:
  "txSenders no_senders [1] = None \<and>
   snd (addSender no_senders [1] 7) \<and>
   txSenders (fst (addSender no_senders [1] 7)) [1] \<noteq> None \<and>
   \<not> snd (addSender (fst (addSender no_senders [1] 7)) [1] 8) \<and>
   isSender (fst (addSender no_senders [1] 7)) [1] 7 \<and>
   [2] \<noteq> [1::8 word] \<and>
   isSender (fst (addSender no_senders [1] 7)) [2] 7 = isSender no_senders [2] 7 \<and>
   \<not> isSender no_senders [2] 7 \<and>
   \<not> isSender (removeSenders (fst (addSender no_senders [1] 7)) [1]) [1] 7"
  using sender_map_operations[of no_senders "[1]" 7]
    sender_map_operations[of "fst (addSender no_senders [1] 7)" "[1]" 8]
    sender_map_operations[of "fst (addSender no_senders [1] 7)" "[1]" 7]
  by (simp add: no_senders_def addSender_def isSender_def)

text \<open>
  Claim C6: for every key the cleanup routine receives on the store's removal channel
  (before it quits) the whole sender map entry of that key is deleted: once the
  notification has been consumed, the key has no entry and \<open>isSender(key, p)\<close> is false
  for every peer.
\<close>

theorem updateSendersRoutine_removes_entry:
  "TxsRemoved k \<in> set (takeWhile (\<lambda>ev. ev \<noteq> Quit) evs) \<Longrightarrow>
   txSenders (updateSendersRoutine evs memR) k = None \<and>
   (\<forall>p. \<not> isSender (updateSendersRoutine evs memR) k p)"
  using updateSendersRoutine_deletes[of k evs memR] by (simp add: isSender_def)

theorem updateSendersRoutine_removes_entry_witness:
  "TxsRemoved [1] \<in> set (takeWhile (\<lambda>ev. ev \<noteq> Quit) [TxsRemoved [2], TxsRemoved [1], Quit]) \<and>
   isSender peer1_sent_tx1 [1] 1 \<and>
   txSenders (updateSendersRoutine [TxsRemoved [2], TxsRemoved [1], Quit] peer1_sent_tx1) [1] = None \<and>
   \<not> isSender (updateSendersRoutine [TxsRemoved [2], TxsRemoved [1], Quit] peer1_sent_tx1) [1] 1"
proof -
  have h: "TxsRemoved [1] \<in>
      set (takeWhile (\<lambda>ev. ev \<noteq> Quit) [TxsRemoved [2], TxsRemoved [1 :: 8 word], Quit])"
    by simp
  have s: "isSender peer1_sent_tx1 [1] 1"
    by (simp add: isSender_def peer1_sent_tx1_def)
  show ?thesis
    using h s updateSendersRoutine_removes_entry[OF h, of peer1_sent_tx1] by simp
qed

section \<open>Receive\<close>

text \<open>
  Claim C4: a transaction batch with an empty list is logged and discarded, and the
  peer is not stopped; a message of any other kind stops the peer with an error and
  nothing is submitted; for a non-empty batch every payload is submitted to \<open>CheckTx\<close>
  whatever errors \<open>CheckTx\<close> returns, each returned error produces one log line and
  nothing else, and the peer is not stopped.
\<close>

theorem Receive_error_handling:
  "(Message e = Txs [] \<longrightarrow>
      Receive Key G chk memR e =
        (memR, [LoggerDebug ''Receive'', LoggerError ''received empty txs from peer''])) \<and>
   (Message e = OtherMessage \<longrightarrow>
      fst (Receive Key G chk memR e) = memR \<and>
      stops (snd (Receive Key G chk memR e)) = [Src e] \<and>
      submitted (snd (Receive Key G chk memR e)) = []) \<and>
   (\<forall>txs. Message e = Txs txs \<longrightarrow>
      stops (snd (Receive Key G chk memR e)) = [] \<and>
      submitted (snd (Receive Key G chk memR e)) = txs \<and>
      tx_log_lines (snd (Receive Key G chk memR e)) =
        rejections (snd (Receive Key G chk memR e)))"
  using Receive_txs_projections[of Key G chk "Src e" _ memR]
  by (auto simp: Receive_def case_prod_beta)

theorem Receive_error_handling_witness:
  "Message (batch_from 3 []) = Txs [] \<and>
   Receive id peer_ids counting_checkTx fresh_reactor (batch_from 3 []) =
     (fresh_reactor, [LoggerDebug ''Receive'', LoggerError ''received empty txs from peer'']) \<and>
   Message (other_from 3) = OtherMessage \<and>
   stops (snd (Receive id peer_ids counting_checkTx fresh_reactor (other_from 3))) = [3] \<and>
   Message (batch_from 3 [[1], [2], [3], [4]]) = Txs [[1], [2], [3], [4]] \<and>
   stops (snd (Receive id peer_ids counting_checkTx fresh_reactor
     (batch_from 3 [[1], [2], [3], [4]]))) = [] \<and>
   submitted (snd (Receive id peer_ids counting_checkTx fresh_reactor
     (batch_from 3 [[1], [2], [3], [4]]))) = [[1], [2], [3], [4]] \<and>
   rejections (snd (Receive id peer_ids counting_checkTx fresh_reactor
     (batch_from 3 [[1], [2], [3], [4]]))) = 2 \<and>
   tx_log_lines (snd (Receive id peer_ids counting_checkTx fresh_reactor
     (batch_from 3 [[1], [2], [3], [4]]))) = 2"
proof -
  have r: "rejections (snd (Receive id peer_ids counting_checkTx fresh_reactor
     (batch_from 3 [[1], [2], [3], [4]]))) = 2"
    by (simp add: Receive_def batch_from_def fresh_reactor_def counting_checkTx_def
        addSender_def Let_def)
  show ?thesis
    using r
      Receive_error_handling[of "batch_from 3 []" id peer_ids counting_checkTx fresh_reactor]
      Receive_error_handling[of "other_from 3" id peer_ids counting_checkTx fresh_reactor]
      Receive_error_handling[of "batch_from 3 [[1], [2], [3], [4]]" id peer_ids
        counting_checkTx fresh_reactor]
    by (simp add: batch_from_def other_from_def)
qed

text \<open>
  Claim C5: for every payload of a received batch, \<open>Receive\<close> records the sending peer
  as a sender of the payload's key before it submits the payload to \<open>CheckTx\<close>: the
  calls are made in the order \<open>addSender\<close>, \<open>CheckTx\<close>, payload by payload, and when
  \<open>Receive\<close> returns the peer is a sender of every payload of the batch (the entry is
  created when it was absent).
\<close>

theorem Receive_records_sender_first:
  "Message e = Txs txs \<Longrightarrow>
     calls (snd (Receive Key G chk memR e)) =
       concat (map (\<lambda>t. [Inl (Key t, G (Src e)), Inr t]) txs) \<and>
     (\<forall>t \<in> set txs. isSender (fst (Receive Key G chk memR e)) (Key t) (G (Src e)))"
  using Receive_txs_calls[of Key G chk "Src e" txs memR]
    Receive_txs_records_sender[of _ txs Key G chk "Src e" memR]
  by (auto simp: Receive_def case_prod_beta)

theorem Receive_records_sender_first_witness:
  "Message (batch_from 3 [[1], [2]]) = Txs [[1], [2]] \<and>
   \<not> isSender fresh_reactor [1] 3 \<and>
   calls (snd (Receive id peer_ids counting_checkTx fresh_reactor (batch_from 3 [[1], [2]]))) =
     [Inl ([1], 3), Inr [1], Inl ([2], 3), Inr [2]] \<and>
   isSender (fst (Receive id peer_ids counting_checkTx fresh_reactor (batch_from 3 [[1], [2]])))
     [1] 3 \<and>
   isSender (fst (Receive id peer_ids counting_checkTx fresh_reactor (batch_from 3 [[1], [2]])))
     [2] 3"
proof -
  have m: "Message (batch_from 3 [[1], [2]]) = Txs [[1], [2]]"
    by (simp add: batch_from_def)
  have n: "\<not> isSender fresh_reactor [1] 3"
    by (simp add: isSender_def fresh_reactor_def)
  have p: "peer_ids (Src (batch_from 3 [[1], [2]])) = 3"
    by (simp add: batch_from_def peer_ids_def)
  show ?thesis
    using m n
      Receive_records_sender_first[OF m, of id peer_ids counting_checkTx fresh_reactor]
    by (simp add: p)
qed

section \<open>The broadcast loop\<close>

lemma advance_delivered: "delivered (advance env e s) = s"
  by (simp add: advance_def split: selected.splits)

lemma iter_delivered_attempted:
  "delivered (broadcastTxRoutine_iter Key memR peerID env cur) = Some t \<Longrightarrow>
   attempted (broadcastTxRoutine_iter Key memR peerID env cur) = Some t"
  by (auto simp: broadcastTxRoutine_iter_def gossip_def advance_delivered advance_attempted
      split: option.splits if_splits selected.splits)

lemma run_nth_is_iter:
  "i < length (broadcastTxRoutine Key peerID steps cur) \<Longrightarrow>
   \<exists>c. broadcastTxRoutine Key peerID steps cur ! i =
     broadcastTxRoutine_iter Key (fst (steps ! i)) peerID (snd (steps ! i)) c"
proof (induction steps arbitrary: cur i)
  case Nil
  then show ?case by simp
next
  case (Cons s steps)
  obtain memR env where s: "s = (memR, env)"
    by (cases s)
  show ?case
  proof (cases i)
    case 0
    then show ?thesis
      using s by (auto simp: Let_def)
  next
    case (Suc j)
    then show ?thesis
      using Cons.prems s
        Cons.IH[of j "cursor (broadcastTxRoutine_iter Key memR peerID env cur)"]
      by (simp add: Let_def split: if_splits)
  qed
qed

text \<open>
  Claim C3: an iteration of the broadcast loop takes the catch-up delay (it sleeps and
  continues with the cursor on the same element, sending nothing) exactly when it is
  running, has an element under the cursor, the peer has a state, and
  \<open>peerHeight < txHeight - 1\<close> in 64-bit signed arithmetic; otherwise the element goes
  on to the send decision, where it is sent unless the peer is a known sender. For an
  admission height that is not negative the comparison says that the peer is more than
  one behind: \<open>peerHeight + 1 < txHeight\<close> over the integers.
\<close>

theorem catch_up_throttle:
  assumes "memR_running env" and "peer_running env"
    and "cur = Some e \<or> cur = None \<and> txs_wait env = Ready (Some e)"
    and "peer_height env = Some h"
  shows "(exit (broadcastTxRoutine_iter Key memR peerID env cur) = SleepPeerLagging
            \<longleftrightarrow> sint h < sint (height e - 1)) \<and>
         (sint h < sint (height e - 1) \<longrightarrow>
            cursor (broadcastTxRoutine_iter Key memR peerID env cur) = Some e \<and>
            attempted (broadcastTxRoutine_iter Key memR peerID env cur) = None) \<and>
         (\<not> sint h < sint (height e - 1) \<longrightarrow>
            attempted (broadcastTxRoutine_iter Key memR peerID env cur) =
              (if isSender memR (Key (tx e)) peerID then None else Some (tx e))) \<and>
         (0 \<le> sint (height e) \<longrightarrow>
            (exit (broadcastTxRoutine_iter Key memR peerID env cur) = SleepPeerLagging
               \<longleftrightarrow> sint h + 1 < sint (height e)))"
proof -
  have g: "broadcastTxRoutine_iter Key memR peerID env cur = gossip Key memR peerID env e"
    using assms(1-3) by (rule iter_is_gossip)
  have 1: "exit (gossip Key memR peerID env e) = SleepPeerLagging
      \<longleftrightarrow> sint h < sint (height e - 1)"
    using assms(4) by (simp add: gossip_lagging_iff)
  have 2: "sint h < sint (height e - 1) \<Longrightarrow>
      cursor (gossip Key memR peerID env e) = Some e \<and>
      attempted (gossip Key memR peerID env e) = None"
    using assms(4) by (simp add: gossip_def)
  have 3: "\<not> sint h < sint (height e - 1) \<Longrightarrow>
      attempted (gossip Key memR peerID env e) =
        (if isSender memR (Key (tx e)) peerID then None else Some (tx e))"
    using assms(4) by (simp add: gossip_def advance_attempted)
  have 4: "0 \<le> sint (height e) \<Longrightarrow>
      sint h < sint (height e - 1) \<longleftrightarrow> sint h + 1 < sint (height e)"
    using sint_pred_nonneg[of "height e"] by auto
  show ?thesis
    using 1 2 3 4 by (simp add: g)
qed

theorem catch_up_throttle_witness:
  "memR_running (env_at \<lparr>height = 10, tx = [1]\<rparr> 8 True) \<and>
   peer_running (env_at \<lparr>height = 10, tx = [1]\<rparr> 8 True) \<and>
   txs_wait (env_at \<lparr>height = 10, tx = [1]\<rparr> 8 True) = Ready (Some \<lparr>height = 10, tx = [1]\<rparr>) \<and>
   peer_height (env_at \<lparr>height = 10, tx = [1]\<rparr> 8 True) = Some 8 \<and>
   exit (broadcastTxRoutine_iter id no_senders 1 (env_at \<lparr>height = 10, tx = [1]\<rparr> 8 True) None)
     = SleepPeerLagging \<and>
   cursor (broadcastTxRoutine_iter id no_senders 1 (env_at \<lparr>height = 10, tx = [1]\<rparr> 8 True) None)
     = Some \<lparr>height = 10, tx = [1]\<rparr> \<and>
   exit (broadcastTxRoutine_iter id no_senders 1 (env_at \<lparr>height = 10, tx = [1]\<rparr> 9 True) None)
     \<noteq> SleepPeerLagging \<and>
   attempted (broadcastTxRoutine_iter id no_senders 1 (env_at \<lparr>height = 10, tx = [1]\<rparr> 9 True) None)
     = Some [1]"
proof -
  have a: "memR_running (env_at \<lparr>height = 10, tx = [1]\<rparr> h True)"
    and b: "peer_running (env_at \<lparr>height = 10, tx = [1]\<rparr> h True)"
    and c: "None = Some \<lparr>height = 10, tx = [1]\<rparr> \<or> None = None \<and>
      txs_wait (env_at \<lparr>height = 10, tx = [1]\<rparr> h True) = Ready (Some \<lparr>height = 10, tx = [1]\<rparr>)"
    and d: "peer_height (env_at \<lparr>height = 10, tx = [1]\<rparr> h True) = Some h" for h
    by (simp_all add: env_at_def)
  have n: "\<not> isSender no_senders (id [1]) 1"
    by (simp add: isSender_def no_senders_def)
  show ?thesis
    using a[of 8] b[of 8] c[of 8] d[of 8] n
      catch_up_throttle[where Key = id and memR = no_senders and peerID = 1,
        OF a[of 8] b[of 8] c[of 8] d[of 8]]
      catch_up_throttle[where Key = id and memR = no_senders and peerID = 1,
        OF a[of 9] b[of 9] c[of 9] d[of 9]]
    by simp
qed

text \<open>
  Claim C9: when the send to the peer fails, the iteration sleeps and continues with
  the cursor on the same element, so the following iteration starts at that element
  again: the transaction is delayed, not skipped.
\<close>

theorem send_failure_keeps_cursor:
  assumes "memR_running env" and "peer_running env"
    and "cur = Some e \<or> cur = None \<and> txs_wait env = Ready (Some e)"
    and "peer_height env = Some h" and "\<not> sint h < sint (height e - 1)"
    and "\<not> isSender memR (Key (tx e)) peerID" and "\<not> send_success env"
  shows "broadcastTxRoutine_iter Key memR peerID env cur =
           \<lparr>exit = SleepSendFailed, cursor = Some e,
            attempted = Some (tx e), delivered = None\<rparr> \<and>
         broadcastTxRoutine Key peerID ((memR, env) # rest) cur =
           \<lparr>exit = SleepSendFailed, cursor = Some e,
            attempted = Some (tx e), delivered = None\<rparr>
             # broadcastTxRoutine Key peerID rest (Some e)"
proof -
  have g: "broadcastTxRoutine_iter Key memR peerID env cur = gossip Key memR peerID env e"
    using assms(1-3) by (rule iter_is_gossip)
  have "gossip Key memR peerID env e =
       \<lparr>exit = SleepSendFailed, cursor = Some e, attempted = Some (tx e), delivered = None\<rparr>"
    using assms(4-7) by (simp add: gossip_def)
  then show ?thesis
    by (simp add: g Let_def)
qed

theorem send_failure_keeps_cursor_witness:
  "memR_running (env_at gossip_tx1 1 False) \<and> peer_running (env_at gossip_tx1 1 False) \<and>
   txs_wait (env_at gossip_tx1 1 False) = Ready (Some gossip_tx1) \<and>
   peer_height (env_at gossip_tx1 1 False) = Some 1 \<and>
   \<not> sint (1 :: 64 word) < sint (height gossip_tx1 - 1) \<and>
   \<not> isSender no_senders (id (tx gossip_tx1)) 1 \<and>
   \<not> send_success (env_at gossip_tx1 1 False) \<and>
   map delivered (broadcastTxRoutine id 1
     [(no_senders, env_at gossip_tx1 1 False), (no_senders, env_at gossip_tx1 1 True)] None) =
     [None, Some (tx gossip_tx1)]"
proof -
  have a: "memR_running (env_at gossip_tx1 1 False)"
    and b: "peer_running (env_at gossip_tx1 1 False)"
    and c: "None = Some gossip_tx1 \<or> None = None \<and>
      txs_wait (env_at gossip_tx1 1 False) = Ready (Some gossip_tx1)"
    and d: "peer_height (env_at gossip_tx1 1 False) = Some 1"
    and f: "\<not> send_success (env_at gossip_tx1 1 False)"
    by (simp_all add: env_at_def)
  have l: "\<not> sint (1 :: 64 word) < sint (height gossip_tx1 - 1)"
    by (simp add: gossip_tx1_def)
  have n: "\<not> isSender no_senders (id (tx gossip_tx1)) 1"
    by (simp add: isSender_def no_senders_def)
  have r: "map delivered (broadcastTxRoutine id 1 [(no_senders, env_at gossip_tx1 1 True)]
      (Some gossip_tx1)) = [Some (tx gossip_tx1)]"
    by (simp add: broadcastTxRoutine_iter_def gossip_def advance_def env_at_def Let_def
        isSender_def no_senders_def gossip_tx1_def)
  show ?thesis
    using a b c d f l n r
      send_failure_keeps_cursor[where Key = id and memR = no_senders and peerID = 1
        and e = gossip_tx1 and env = "env_at gossip_tx1 1 False" and cur = None and h = 1
        and rest = "[(no_senders, env_at gossip_tx1 1 True)]", OF a b c d l n f]
    by simp
qed

text \<open>
  Claim C2, as stated: once a peer has been recorded as a sender of a transaction in the
  sender map, or has received the transaction by a successful send, no later iteration of
  its broadcast loop sends it the transaction again while the transaction remains in
  the pool. The second alternative fails. The loop keeps no record of what it has sent:
  in the run below the peer receives the first transaction, then the second; the second
  is removed from the pool while the cursor is on it, so the cursor becomes nil and the
  loop starts again at the front, where the first transaction, in the pool all the time,
  is sent to the same peer a second time.
\<close>

theorem resend_after_restart_counterexample:
  "map delivered (broadcastTxRoutine id 1 restart_run None) =
     [Some (tx gossip_tx1), Some (tx gossip_tx2), Some (tx gossip_tx1)] \<and>
   map exit (broadcastTxRoutine id 1 restart_run None) = [Advanced, Advanced, Returned] \<and>
   gossip_tx1 \<in> set [gossip_tx1, gossip_tx2] \<and> gossip_tx1 \<in> set [gossip_tx1] \<and>
   TxsWaitChan_ready [gossip_tx1, gossip_tx2] \<and>
   NextWaitChan_ready [gossip_tx1, gossip_tx2] gossip_tx1 \<and>
   NextWaitChan_ready [gossip_tx1] gossip_tx2 \<and>
   TxsWaitChan_ready [gossip_tx1]"
  by (simp add: restart_run_def no_senders_def gossip_tx1_def gossip_tx2_def
      broadcastTxRoutine_iter_def gossip_def advance_def isSender_def TxsFront_def
      NextWaitChan_ready_def TxsWaitChan_ready_def Let_def)

lemma Receive_keeps_senders:
  "isSender memR k p \<Longrightarrow> isSender (fst (Receive Key G chk memR e)) k p"
  by (auto simp: Receive_def case_prod_beta Receive_txs_keeps_senders split: message.splits)

lemma removeSenders_other_key:
  "k' \<noteq> k \<Longrightarrow> isSender (removeSenders memR k') k p = isSender memR k p"
  by (simp add: isSender_def removeSenders_def)

lemma other_routines_keep_senders:
  "isSender memR k p \<Longrightarrow> Cleanup k \<notin> set evs \<Longrightarrow>
   isSender (other_routines Key G chk evs memR) k p"
proof (induction evs arbitrary: memR)
  case Nil
  then show ?case by simp
next
  case (Cons ev evs)
  show ?case
  proof (cases ev)
    case (Inbound e)
    then show ?thesis
      using Cons by (simp add: Receive_keeps_senders)
  next
    case (Cleanup k')
    then have "k' \<noteq> k"
      using Cons.prems by auto
    then show ?thesis
      using Cons Cleanup by (simp add: removeSenders_other_key)
  next
    case (MempoolStep mp)
    then show ?thesis
      using Cons by simp
  qed
qed

lemma other_routines_append:
  "other_routines Key G chk (xs @ ys) memR =
     other_routines Key G chk ys (other_routines Key G chk xs memR)"
proof (induction xs arbitrary: memR)
  case Nil
  then show ?case by simp
next
  case (Cons ev xs)
  then show ?case by (cases ev) simp_all
qed

lemma length_reactor_states [simp]:
  "length (reactor_states Key G chk evss memR) = length evss"
  by (induction evss arbitrary: memR) (simp_all add: Let_def)

lemma reactor_states_nth:
  "m < length evss \<Longrightarrow>
   reactor_states Key G chk evss memR ! m =
     other_routines Key G chk (concat (take (Suc m) evss)) memR"
proof (induction evss arbitrary: memR m)
  case Nil
  then show ?case by simp
next
  case (Cons evs evss)
  show ?case
  proof (cases m)
    case 0
    then show ?thesis by (simp add: Let_def)
  next
    case (Suc n)
    then show ?thesis
      using Cons.prems Cons.IH[of n "other_routines Key G chk evs memR"]
      by (simp add: Let_def other_routines_append)
  qed
qed

lemma reactor_states_keep_senders:
  assumes "i \<le> j" and "j < length evss"
    and "isSender (reactor_states Key G chk evss memR ! i) k p"
    and "Cleanup k \<notin> set (concat (take (j - i) (drop (Suc i) evss)))"
  shows "isSender (reactor_states Key G chk evss memR ! j) k p"
proof -
  have "take (Suc j) evss = take (Suc i) evss @ take (j - i) (drop (Suc i) evss)"
    using assms(1) take_add[of "Suc i" "j - i" evss] by simp
  then have "reactor_states Key G chk evss memR ! j =
      other_routines Key G chk (concat (take (j - i) (drop (Suc i) evss)))
        (reactor_states Key G chk evss memR ! i)"
    using assms(1,2) by (simp add: reactor_states_nth other_routines_append)
  then show ?thesis
    using assms(3,4) by (simp add: other_routines_keep_senders)
qed

lemma run_length: "length (broadcastTxRoutine Key peerID steps cur) \<le> length steps"
  by (induction steps arbitrary: cur) (auto simp: Let_def)

lemma guard_blocks_recorded_sender:
  assumes "i < length (broadcastTxRoutine Key peerID steps cur)"
    and "isSender (fst (steps ! i)) (Key t) peerID"
  shows "attempted (broadcastTxRoutine Key peerID steps cur ! i) \<noteq> Some t \<and>
         delivered (broadcastTxRoutine Key peerID steps cur ! i) \<noteq> Some t"
proof -
  obtain c where c: "broadcastTxRoutine Key peerID steps cur ! i =
      broadcastTxRoutine_iter Key (fst (steps ! i)) peerID (snd (steps ! i)) c"
    using run_nth_is_iter[OF assms(1)] by blast
  have "attempted (broadcastTxRoutine_iter Key (fst (steps ! i)) peerID (snd (steps ! i)) c)
      \<noteq> Some t"
    using assms(2) iter_attempted by blast
  then show ?thesis
    using c iter_delivered_attempted by metis
qed

text \<open>
  Claim C2, amended: once a peer has been recorded as a sender of a transaction in the
  sender map, no later iteration of its broadcast loop sends it that transaction while
  the transaction remains in the pool, that is, as long as the cleanup routine consumes
  no removal notification for the transaction's key. Whatever batches arrive, whatever
  other keys are cleaned up and however the mempool changes in between, the iteration
  in which the peer is recorded and every later one neither call \<open>Send\<close> with the
  transaction nor deliver it.
\<close>

theorem recorded_sender_never_sent_again:
  assumes "i \<le> j"
    and "j < length (broadcastTxRoutine Key peerID
           (zip (reactor_states Key G chk evss memR) envs) cur)"
    and "isSender (reactor_states Key G chk evss memR ! i) (Key t) peerID"
    and "Cleanup (Key t) \<notin> set (concat (take (j - i) (drop (Suc i) evss)))"
  shows "attempted (broadcastTxRoutine Key peerID
           (zip (reactor_states Key G chk evss memR) envs) cur ! j) \<noteq> Some t \<and>
         delivered (broadcastTxRoutine Key peerID
           (zip (reactor_states Key G chk evss memR) envs) cur ! j) \<noteq> Some t"
proof -
  have "j < length (zip (reactor_states Key G chk evss memR) envs)"
    using assms(2) run_length[of Key peerID "zip (reactor_states Key G chk evss memR) envs" cur]
    by simp
  then have j: "j < length evss" and z: "fst (zip (reactor_states Key G chk evss memR) envs ! j) =
      reactor_states Key G chk evss memR ! j"
    by simp_all
  have "isSender (reactor_states Key G chk evss memR ! j) (Key t) peerID"
    using assms(1) j assms(3,4) by (rule reactor_states_keep_senders)
  then show ?thesis
    using guard_blocks_recorded_sender[OF assms(2)] z by simp
qed

theorem recorded_sender_never_sent_again_witness:
  "(0::nat) \<le> 2 \<and>
   2 < length (broadcastTxRoutine id 1
         (zip (reactor_states id peer_ids counting_checkTx recorded_run_events fresh_reactor)
            (map snd restart_run)) None) \<and>
   \<not> isSender fresh_reactor (id [1]) 1 \<and>
   isSender (reactor_states id peer_ids counting_checkTx recorded_run_events fresh_reactor ! 0)
     (id [1]) 1 \<and>
   Cleanup (id [1]) \<notin> set (concat (take (2 - 0) (drop (Suc 0) recorded_run_events))) \<and>
   map delivered (broadcastTxRoutine id 1
         (zip (reactor_states id peer_ids counting_checkTx recorded_run_events fresh_reactor)
            (map snd restart_run)) None) = [None, Some [2], None] \<and>
   delivered (broadcastTxRoutine id 1
         (zip (reactor_states id peer_ids counting_checkTx recorded_run_events fresh_reactor)
            (map snd restart_run)) None ! 2) \<noteq> Some [1]"
proof -
  have run: "map delivered (broadcastTxRoutine id 1
         (zip (reactor_states id peer_ids counting_checkTx recorded_run_events fresh_reactor)
            (map snd restart_run)) None) = [None, Some [2], None]"
    by (simp add: recorded_run_events_def fresh_reactor_def batch_from_def peer_ids_def
        counting_checkTx_def Receive_def addSender_def removeSenders_def
        restart_run_def gossip_tx1_def gossip_tx2_def
        broadcastTxRoutine_iter_def gossip_def advance_def isSender_def TxsFront_def Let_def)
  have a: "(0::nat) \<le> 2" by simp
  have b: "2 < length (broadcastTxRoutine id 1
         (zip (reactor_states id peer_ids counting_checkTx recorded_run_events fresh_reactor)
            (map snd restart_run)) None)"
    using arg_cong[OF run, of length] by simp
  have c: "isSender (reactor_states id peer_ids counting_checkTx recorded_run_events fresh_reactor ! 0)
     (id [1]) 1"
    by (simp add: recorded_run_events_def fresh_reactor_def batch_from_def peer_ids_def
        counting_checkTx_def Receive_def addSender_def isSender_def Let_def)
  have d: "Cleanup (id [1]) \<notin> set (concat (take (2 - 0) (drop (Suc 0) recorded_run_events)))"
    by (simp add: recorded_run_events_def)
  have n: "\<not> isSender fresh_reactor (id [1]) 1"
    by (simp add: isSender_def fresh_reactor_def)
  show ?thesis
    using a b c d n run
      recorded_sender_never_sent_again[where Key = id and peerID = 1 and G = peer_ids
        and chk = counting_checkTx and evss = recorded_run_events and memR = fresh_reactor
        and envs = "map snd restart_run" and cur = None and t = "[1]" and i = 0 and j = 2,
        OF a b c d]
    by simp
qed

end
